theory Spec2Isabelle
  imports Complex_Main "HOL-Library.Log_Nat"
begin

section \<open>Python numbers\<close>

text \<open>
  A Python \<^verbatim>\<open>float\<close> is an IEEE 754 binary64 number. A finite one is modelled by the rational
  it denotes (both zeros are \<open>0\<close>); an arithmetic operation is the exact rational operation
  followed by \<open>round_double\<close>, rounding to the nearest binary64 number with ties to the even
  significand: 53 significant bits for normal numbers, and multiples of \<open>2 powi - 1074\<close>
  below \<open>2 powi - 1022\<close>. Overflow to infinity is not modelled: lemma \<open>revenue_range\<close>
  below shows that every value the calculator computes from a validated body lies between
  0 and \<open>10 ^ 10\<close>. Python's \<^verbatim>\<open>int\<close> is unbounded and modelled by \<open>int\<close>.
\<close>

definition round_half_even :: "rat \<Rightarrow> int" where
  "round_half_even x =
     (let f = \<lfloor>x\<rfloor>; r = x - of_int f
      in if r < 1/2 then f else if 1/2 < r then f + 1 else if even f then f else f + 1)"

text \<open>\<open>ilog2 x\<close> is the binary exponent of a positive \<open>x\<close>: \<open>2 powi ilog2 x \<le> x < 2 powi (ilog2 x + 1)\<close>.\<close>

definition ilog2 :: "rat \<Rightarrow> int" where
  "ilog2 x =
     (if 1 \<le> x then bitlen \<lfloor>x\<rfloor> - 1 else - bitlen (\<lceil>1 / x\<rceil> - 1))"

text \<open>The exponent of the unit in the last place of the binary64 numbers around \<open>x\<close>.\<close>

definition ulp_exp :: "rat \<Rightarrow> int" where
  "ulp_exp x = max (ilog2 \<bar>x\<bar>) (- 1022) - 52"

definition round_double :: "rat \<Rightarrow> rat" where
  "round_double x = (if x = 0 then 0
      else of_int (round_half_even (x / power_int 2 (ulp_exp x))) * power_int 2 (ulp_exp x))"

definition float_of_int :: "int \<Rightarrow> rat" where
  "float_of_int n = round_double (of_int n)"

definition float_add :: "rat \<Rightarrow> rat \<Rightarrow> rat" where
  "float_add x y = round_double (x + y)"

definition float_sub :: "rat \<Rightarrow> rat \<Rightarrow> rat" where
  "float_sub x y = round_double (x - y)"

definition float_mul :: "rat \<Rightarrow> rat \<Rightarrow> rat" where
  "float_mul x y = round_double (x * y)"

text \<open>\<^verbatim>\<open>x / y\<close> on floats; the only divisor in the program is the literal 100.\<close>

definition float_truediv :: "rat \<Rightarrow> rat \<Rightarrow> rat" where
  "float_truediv x y = round_double (x / y)"

text \<open>
  \<^verbatim>\<open>round(x, ndigits)\<close> on a float, for \<open>ndigits \<ge> 0\<close>: CPython first writes the exact value
  of \<open>x\<close> as a decimal with \<open>ndigits\<close> places, a tie going to the even last digit
  (\<open>decimal_round\<close> is that decimal, counted in units of its last place), and then converts
  the decimal back to the nearest float.
\<close>

definition decimal_round :: "rat \<Rightarrow> nat \<Rightarrow> int" where
  "decimal_round x ndigits = round_half_even (x * 10 ^ ndigits)"

definition round_py :: "rat \<Rightarrow> nat \<Rightarrow> rat" where
  "round_py x ndigits = round_double (of_int (decimal_round x ndigits) / 10 ^ ndigits)"

text \<open>\<^verbatim>\<open>min(a, b)\<close> keeps the first argument unless the second is strictly smaller.\<close>

definition min_py :: "rat \<Rightarrow> rat \<Rightarrow> rat" where
  "min_py a b = (if b < a then b else a)"

section \<open>Request models and their validation\<close>

text \<open>
  The request bodies are pydantic models. The model takes over after JSON decoding and
  pydantic's coercion to the declared type: a constructor argument is \<open>Some v\<close> with \<open>v\<close> of the
  declared type, or \<open>None\<close> when the key is absent (for an \<^verbatim>\<open>Optional\<close> field: absent or null).
  What the class declarations of the source add is written out: \<^verbatim>\<open>Field(...)\<close> makes a field
  required, \<^verbatim>\<open>conint\<close> and \<^verbatim>\<open>confloat\<close> bound a number, and a model is built only if no field
  has an error; otherwise the errors of all fields are reported together.
\<close>

datatype constraint_error =
  Missing | Greater_than_equal | Greater_than | Less_than_equal | Invalid_email

type_synonym ValidationError = "(string \<times> constraint_error) list"

definition required :: "'a option \<Rightarrow> constraint_error + 'a" where
  "required v = (case v of None \<Rightarrow> Inl Missing | Some x \<Rightarrow> Inr x)"

definition conint :: "int \<Rightarrow> int \<Rightarrow> int \<Rightarrow> constraint_error + int" where
  "conint ge le v =
     (if \<not> ge \<le> v then Inl Greater_than_equal
      else if \<not> v \<le> le then Inl Less_than_equal
      else Inr v)"

datatype lower_bound = Ge rat | Gt rat

definition confloat :: "lower_bound \<Rightarrow> rat \<Rightarrow> rat \<Rightarrow> constraint_error + rat" where
  "confloat lower le v =
     (case lower of
        Ge b \<Rightarrow> if \<not> b \<le> v then Inl Greater_than_equal
                else if \<not> v \<le> le then Inl Less_than_equal else Inr v
      | Gt b \<Rightarrow> if \<not> b < v then Inl Greater_than
                else if \<not> v \<le> le then Inl Less_than_equal else Inr v)"

definition and_then :: "'e + 'a \<Rightarrow> ('a \<Rightarrow> 'e + 'b) \<Rightarrow> 'e + 'b" where
  "and_then r f = (case r of Inl e \<Rightarrow> Inl e | Inr x \<Rightarrow> f x)"

definition field_errors :: "string \<Rightarrow> constraint_error + 'a \<Rightarrow> ValidationError" where
  "field_errors field r = (case r of Inl e \<Rightarrow> [(field, e)] | Inr _ \<Rightarrow> [])"

record CalcInput =
  monthly_inquiries :: int
  connection_rate :: rat
  close_rate :: rat
  lifetime_value :: rat

definition CalcInput_validate ::
  "int option \<Rightarrow> rat option \<Rightarrow> rat option \<Rightarrow> rat option \<Rightarrow> ValidationError + CalcInput" where
  "CalcInput_validate mi cr cl lv =
     (let r1 = and_then (required mi) (conint 0 10000);
          r2 = and_then (required cr) (confloat (Ge 0) 100);
          r3 = and_then (required cl) (confloat (Ge 0) 100);
          r4 = and_then (required lv) (confloat (Gt 0) 1000000)
      in case (r1, r2, r3, r4) of
           (Inr a, Inr b, Inr c, Inr d) \<Rightarrow>
             Inr \<lparr>monthly_inquiries = a, connection_rate = b, close_rate = c, lifetime_value = d\<rparr>
         | _ \<Rightarrow>
             Inl (field_errors ''monthly_inquiries'' r1 @ field_errors ''connection_rate'' r2
                  @ field_errors ''close_rate'' r3 @ field_errors ''lifetime_value'' r4))"

record Lead =
  name :: string
  phone :: string
  email :: "string option"
  source :: string
  "notes" :: "string option"
  industry :: "string option"

text \<open>
  \<^verbatim>\<open>EmailStr\<close> is pydantic's type and its checker is not part of the sources, so
  \<open>Lead_validate\<close> takes it as a parameter: \<open>EmailStr s\<close> is \<open>None\<close> when \<open>s\<close> is refused and the
  accepted (possibly normalised) address otherwise.
\<close>

definition optional_email ::
  "(string \<Rightarrow> string option) \<Rightarrow> string option \<Rightarrow> constraint_error + string option" where
  "optional_email EmailStr v =
     (case v of
        None \<Rightarrow> Inr None
      | Some s \<Rightarrow> (case EmailStr s of None \<Rightarrow> Inl Invalid_email | Some a \<Rightarrow> Inr (Some a)))"

definition Lead_validate ::
  "(string \<Rightarrow> string option) \<Rightarrow> string option \<Rightarrow> string option \<Rightarrow> string option \<Rightarrow>
   string option \<Rightarrow> string option \<Rightarrow> string option \<Rightarrow> ValidationError + Lead" where
  "Lead_validate EmailStr nm ph em src nt ind =
     (let r1 = required nm; r2 = required ph; r3 = optional_email EmailStr em;
          r4 = required src
      in case (r1, r2, r3, r4) of
           (Inr a, Inr b, Inr c, Inr d) \<Rightarrow>
             Inr \<lparr>Lead.name = a, Lead.phone = b, email = c, source = d, notes = nt,
                  industry = ind\<rparr>
         | _ \<Rightarrow>
             Inl (field_errors ''name'' r1 @ field_errors ''phone'' r2
                  @ field_errors ''email'' r3 @ field_errors ''source'' r4))"

text \<open>
  Modelled from the spec: the checker behind \<^verbatim>\<open>EmailStr\<close> is missing from the sources. The spec
  asks for standard email-syntax checking: a local part, an \<^verbatim>\<open>@\<close> and a domain part that
  contains at least one dot. That is taken as the usual address syntax without quoting:
  exactly one \<^verbatim>\<open>@\<close>; a local part of non-empty runs of atom characters separated by single
  dots; a domain of at least two labels separated by dots, each label non-empty, made of
  letters, digits and hyphens, and neither beginning nor ending with a hyphen.
\<close>

text \<open>\<^verbatim>\<open>s.split(c)\<close> for a single character \<open>c\<close>.\<close>

fun split_at :: "char \<Rightarrow> string \<Rightarrow> string list" where
  "split_at c [] = [[]]"
| "split_at c (x # xs) =
     (if x = c then [] # split_at c xs
      else (case split_at c xs of [] \<Rightarrow> [[x]] | y # ys \<Rightarrow> (x # y) # ys))"

definition is_alnum :: "char \<Rightarrow> bool" where
  "is_alnum c =
     (let n = (of_char c :: nat)
      in (48 \<le> n \<and> n \<le> 57) \<or> (65 \<le> n \<and> n \<le> 90) \<or> (97 \<le> n \<and> n \<le> 122))"

definition is_atext :: "char \<Rightarrow> bool" where
  "is_atext c = (is_alnum c \<or> c \<in> set ''!#$%&'*+-/=?^_`{|}~'')"

definition valid_local_part :: "string \<Rightarrow> bool" where
  "valid_local_part l = list_all (\<lambda>a. a \<noteq> [] \<and> list_all is_atext a) (split_at CHR ''.'' l)"

definition valid_label :: "string \<Rightarrow> bool" where
  "valid_label l =
     (l \<noteq> [] \<and> list_all (\<lambda>c. is_alnum c \<or> c = CHR ''-'') l \<and>
      hd l \<noteq> CHR ''-'' \<and> last l \<noteq> CHR ''-'')"

definition valid_domain :: "string \<Rightarrow> bool" where
  "valid_domain d =
     (let labels = split_at CHR ''.'' d in 2 \<le> length labels \<and> list_all valid_label labels)"

definition valid_email :: "string \<Rightarrow> bool" where
  "valid_email s =
     (case split_at CHR ''@'' s of
        [l, d] \<Rightarrow> valid_local_part l \<and> valid_domain d
      | _ \<Rightarrow> False)"

definition EmailStr_spec :: "string \<Rightarrow> string option" where
  "EmailStr_spec s = (if valid_email s then Some s else None)"

record DemoRequest =
  name :: string
  phone :: string
  sample_intent :: "string option"

definition DemoRequest_validate ::
  "string option \<Rightarrow> string option \<Rightarrow> string option \<Rightarrow> ValidationError + DemoRequest" where
  "DemoRequest_validate nm ph si =
     (let r1 = required nm; r2 = required ph
      in case (r1, r2) of
           (Inr a, Inr b) \<Rightarrow>
             Inr \<lparr>DemoRequest.name = a, DemoRequest.phone = b, sample_intent = si\<rparr>
         | _ \<Rightarrow> Inl (field_errors ''name'' r1 @ field_errors ''phone'' r2))"

section \<open>The revenue calculator\<close>

record CalcResult =
  current_connected :: rat
  current_closed :: rat
  current_revenue :: rat
  smart_connected :: rat
  smart_closed :: rat
  smart_revenue :: rat
  lift_revenue :: rat
  assumptions :: "(string \<times> rat) list"

text \<open>The local variables of \<^verbatim>\<open>calculate_revenue\<close>, each as a function of the request body.\<close>

definition curr_conn :: "CalcInput \<Rightarrow> rat" where
  "curr_conn body =
     float_mul (float_of_int (monthly_inquiries body))
       (float_truediv (connection_rate body) (float_of_int 100))"

definition curr_close :: "CalcInput \<Rightarrow> rat" where
  "curr_close body = float_mul (curr_conn body) (float_truediv (close_rate body) (float_of_int 100))"

definition curr_rev :: "CalcInput \<Rightarrow> rat" where
  "curr_rev body = float_mul (curr_close body) (lifetime_value body)"

definition smart_conn_rate :: "CalcInput \<Rightarrow> rat" where
  "smart_conn_rate body = min_py 95 (float_add (connection_rate body) 20)"

definition smart_close_rate :: "CalcInput \<Rightarrow> rat" where
  "smart_close_rate body = min_py 85 (float_add (close_rate body) 5)"

definition smart_conn :: "CalcInput \<Rightarrow> rat" where
  "smart_conn body =
     float_mul (float_of_int (monthly_inquiries body))
       (float_truediv (smart_conn_rate body) (float_of_int 100))"

definition smart_close :: "CalcInput \<Rightarrow> rat" where
  "smart_close body =
     float_mul (smart_conn body) (float_truediv (smart_close_rate body) (float_of_int 100))"

definition smart_rev :: "CalcInput \<Rightarrow> rat" where
  "smart_rev body = float_mul (smart_close body) (lifetime_value body)"

definition calculate_revenue :: "CalcInput \<Rightarrow> CalcResult" where
  "calculate_revenue body =
     \<lparr>current_connected = round_py (curr_conn body) 2,
      current_closed = round_py (curr_close body) 2,
      current_revenue = round_py (curr_rev body) 2,
      smart_connected = round_py (smart_conn body) 2,
      smart_closed = round_py (smart_close body) 2,
      smart_revenue = round_py (smart_rev body) 2,
      lift_revenue = round_py (float_sub (smart_rev body) (curr_rev body)) 2,
      assumptions =
        [(''smart_connection_rate'', smart_conn_rate body),
         (''smart_close_rate'', smart_close_rate body)]\<rparr>"

text \<open>
  The body that the route hands to \<^verbatim>\<open>calculate_revenue\<close> has passed \<open>CalcInput_validate\<close>; these
  are the bounds it then satisfies.
\<close>

definition valid_CalcInput :: "CalcInput \<Rightarrow> bool" where
  "valid_CalcInput body \<longleftrightarrow>
     0 \<le> monthly_inquiries body \<and> monthly_inquiries body \<le> 10000 \<and>
     0 \<le> connection_rate body \<and> connection_rate body \<le> 100 \<and>
     0 \<le> close_rate body \<and> close_rate body \<le> 100 \<and>
     0 < lifetime_value body \<and> lifetime_value body \<le> 1000000"

section \<open>Lead and demo handlers\<close>

text \<open>
  \<^verbatim>\<open>create_document\<close> comes from the module \<^verbatim>\<open>database\<close>, which is not among the sources. The
  handlers take it as a parameter: a gateway receives the collection name and the document,
  reads and changes the state \<open>'w\<close> of the outside world, and either returns an identifier
  or raises an exception.
\<close>

datatype py_exception = Exception string

definition str :: "py_exception \<Rightarrow> string" where
  "str e = (case e of Exception msg \<Rightarrow> msg)"

datatype document = Lead_document Lead | DemoRequest_document DemoRequest

type_synonym 'w gateway = "string \<Rightarrow> document \<Rightarrow> 'w \<Rightarrow> (py_exception + string) \<times> 'w"

record turn =
  role :: string
  "text" :: string

text \<open>
  What a route answers: the dictionary returned by \<^verbatim>\<open>create_lead\<close>, the one returned by
  \<^verbatim>\<open>create_demo\<close>, a raised \<^verbatim>\<open>HTTPException(status_code, detail)\<close>, or the answer of the
  framework to a body that fails validation, which never reaches the handler.
\<close>

datatype http_response =
    Lead_ok string
  | Demo_ok string "turn list"
  | HTTPException nat string
  | RequestValidationError ValidationError

definition status_code :: "http_response \<Rightarrow> nat" where
  "status_code r =
     (case r of Lead_ok _ \<Rightarrow> 200 | Demo_ok _ _ \<Rightarrow> 200 | HTTPException c _ \<Rightarrow> c
      | RequestValidationError _ \<Rightarrow> 422)"

text \<open>\<^verbatim>\<open>x or fallback\<close> on an optional string: \<^verbatim>\<open>None\<close> and the empty string are false.\<close>

definition or_py :: "string option \<Rightarrow> string \<Rightarrow> string" where
  "or_py x fallback = (case x of None \<Rightarrow> fallback | Some s \<Rightarrow> if s = [] then fallback else s)"

definition transcript :: "DemoRequest \<Rightarrow> turn list" where
  "transcript req =
     [\<lparr>role = ''visitor'', text = or_py (sample_intent req) ''Hi! I'm looking for a quote.''\<rparr>,
      \<lparr>role = ''ai'', text = ''You're in the right place! I can help with that. May I have your address and a good time for an estimate?''\<rparr>,
      \<lparr>role = ''visitor'', text = ''Tomorrow afternoon works. 123 Main St.''\<rparr>,
      \<lparr>role = ''ai'', text = ''Great. I've penciled you in for 2:30 PM. You'll get a confirmation by text. Anything else I can answer now?''\<rparr>]"

definition create_lead :: "'w gateway \<Rightarrow> Lead \<Rightarrow> 'w \<Rightarrow> http_response \<times> 'w" where
  "create_lead create_document lead w =
     (case create_document ''lead'' (Lead_document lead) w of
        (Inr lead_id, w') \<Rightarrow> (Lead_ok lead_id, w')
      | (Inl e, w') \<Rightarrow> (HTTPException 500 (str e), w'))"

definition create_demo :: "'w gateway \<Rightarrow> DemoRequest \<Rightarrow> 'w \<Rightarrow> http_response \<times> 'w" where
  "create_demo create_document req w =
     (case create_document ''demorequest'' (DemoRequest_document req) w of
        (Inr demo_id, w') \<Rightarrow> (Demo_ok demo_id (transcript req), w')
      | (Inl e, w') \<Rightarrow> (HTTPException 500 (str e), w'))"

text \<open>The routes \<^verbatim>\<open>POST /api/lead\<close> and \<^verbatim>\<open>POST /api/demo\<close>: validation first, then the handler.\<close>

definition post_api_lead ::
  "(string \<Rightarrow> string option) \<Rightarrow> 'w gateway \<Rightarrow> string option \<Rightarrow> string option \<Rightarrow> string option \<Rightarrow>
   string option \<Rightarrow> string option \<Rightarrow> string option \<Rightarrow> 'w \<Rightarrow> http_response \<times> 'w" where
  "post_api_lead EmailStr create_document nm ph em src nt ind w =
     (case Lead_validate EmailStr nm ph em src nt ind of
        Inl errors \<Rightarrow> (RequestValidationError errors, w)
      | Inr lead \<Rightarrow> create_lead create_document lead w)"

definition post_api_demo ::
  "'w gateway \<Rightarrow> string option \<Rightarrow> string option \<Rightarrow> string option \<Rightarrow> 'w \<Rightarrow> http_response \<times> 'w" where
  "post_api_demo create_document nm ph si w =
     (case DemoRequest_validate nm ph si of
        Inl errors \<Rightarrow> (RequestValidationError errors, w)
      | Inr req \<Rightarrow> create_demo create_document req w)"

text \<open>
  A gateway wrapped so that every call is written to a log next to the world; the log
  counts the calls a handler makes.
\<close>

definition logged :: "'w gateway \<Rightarrow> ('w \<times> (string \<times> document) list) gateway" where
  "logged g collection doc s =
     (case s of (w, calls) \<Rightarrow>
        (case g collection doc w of (r, w') \<Rightarrow> (r, (w', calls @ [(collection, doc)]))))"

text \<open>
  Modelled from the spec: \<^verbatim>\<open>database.create_document\<close> is missing from the sources. The spec
  gives its contract: insert the record into the named collection and return a generated
  identifier, or fail with a store error. Two gateways of that shape serve as concrete
  instances: one keeps the documents in a list and numbers them, one always fails.
\<close>

definition memory_gateway :: "((string \<times> document) list) gateway" where
  "memory_gateway collection doc w =
     (Inr (''id-'' @ replicate (length w) CHR ''i''), w @ [(collection, doc)])"

definition failing_gateway :: "string \<Rightarrow> 'w gateway" where
  "failing_gateway msg collection doc w = (Inl (Exception msg), w)"

section \<open>Properties of rounding\<close>

lemma round_half_even_of_int: "round_half_even (of_int n) = n"
  by (simp add: round_half_even_def)

lemma round_half_even_error: "\<bar>of_int (round_half_even x) - x\<bar> \<le> 1/2"
proof -
  have "of_int \<lfloor>x\<rfloor> \<le> x" "x < of_int \<lfloor>x\<rfloor> + 1" by linarith+
  then show ?thesis
    by (auto simp: round_half_even_def Let_def abs_le_iff)
qed

lemma round_half_even_mono:
  assumes "x \<le> y" shows "round_half_even x \<le> round_half_even y"
proof (cases "\<lfloor>x\<rfloor> = \<lfloor>y\<rfloor>")
  case True
  with assms show ?thesis
    by (auto simp: round_half_even_def Let_def)
next
  case False
  with assms have "\<lfloor>x\<rfloor> + 1 \<le> \<lfloor>y\<rfloor>"
    using floor_mono [of x y] by linarith
  moreover have "round_half_even x \<le> \<lfloor>x\<rfloor> + 1"
    by (simp add: round_half_even_def Let_def)
  moreover have "\<lfloor>y\<rfloor> \<le> round_half_even y"
    by (simp add: round_half_even_def Let_def)
  ultimately show ?thesis by linarith
qed

lemma two_powi_nonneg: "0 \<le> k \<Longrightarrow> power_int (2::rat) k = 2 ^ nat k"
  by (simp add: power_int_def)

lemma two_powi_neg: "0 \<le> k \<Longrightarrow> power_int (2::rat) (- k) = 1 / 2 ^ nat k"
  by (simp add: power_int_minus two_powi_nonneg inverse_eq_divide)

lemma bitlen_pos_bounds:
  assumes "0 < n"
  shows "1 \<le> bitlen n" "(2::rat) ^ nat (bitlen n - 1) \<le> of_int n"
    "(of_int n::rat) + 1 \<le> 2 ^ nat (bitlen n)"
proof -
  show "1 \<le> bitlen n"
    using assms bitlen_eq_zero_iff [of n] bitlen_nonneg [of n] by linarith
  have "2 ^ nat (bitlen n - 1) \<le> n" "n + 1 \<le> 2 ^ nat (bitlen n)"
    using bitlen_bounds [OF assms] by simp_all
  then have "of_int (2 ^ nat (bitlen n - 1)) \<le> (of_int n::rat)"
    "(of_int (n + 1)::rat) \<le> of_int (2 ^ nat (bitlen n))"
    by (simp_all only: of_int_le_iff)
  then show "(2::rat) ^ nat (bitlen n - 1) \<le> of_int n"
    "(of_int n::rat) + 1 \<le> 2 ^ nat (bitlen n)"
    by simp_all
qed

lemma ilog2_bounds:
  assumes "0 < x"
  shows "power_int 2 (ilog2 x) \<le> x" and "x < power_int 2 (ilog2 x + 1)"
proof -
  have "power_int 2 (ilog2 x) \<le> x \<and> x < power_int 2 (ilog2 x + 1)"
  proof (cases "1 \<le> x")
    case True
    define n where "n = \<lfloor>x\<rfloor>"
    have n: "0 < n" "of_int n \<le> x" "x < of_int n + 1"
      using True by (auto simp: n_def) linarith+
    note b = bitlen_pos_bounds [OF n(1)]
    have k: "ilog2 x = bitlen n - 1"
      using True by (simp add: ilog2_def n_def)
    have "power_int (2::rat) (ilog2 x) = 2 ^ nat (bitlen n - 1)"
      using b(1) by (simp add: k two_powi_nonneg)
    then have lo: "power_int 2 (ilog2 x) \<le> x"
      using n(2) b(2) by linarith
    have "power_int (2::rat) (ilog2 x + 1) = 2 ^ nat (bitlen n)"
      using b(1) by (simp add: k two_powi_nonneg)
    then have hi: "x < power_int 2 (ilog2 x + 1)"
      using n(3) b(3) by linarith
    from lo hi show ?thesis ..
  next
    case False
    define m where "m = \<lceil>1 / x\<rceil> - 1"
    have inv: "1 < 1 / x" using False assms by simp
    have m: "0 < m" "of_int m < 1 / x" "1 / x \<le> of_int m + 1"
      using inv by (auto simp: m_def) linarith+
    note b = bitlen_pos_bounds [OF m(1)]
    have k: "ilog2 x = - bitlen m"
      using False by (simp add: ilog2_def m_def)
    have "1 / x \<le> 2 ^ nat (bitlen m)" using m(3) b(3) by linarith
    then have "1 / 2 ^ nat (bitlen m) \<le> x"
      using assms by (simp add: field_simps)
    moreover have "power_int (2::rat) (ilog2 x) = 1 / 2 ^ nat (bitlen m)"
      unfolding k using b(1) by (intro two_powi_neg) simp
    ultimately have lo: "power_int 2 (ilog2 x) \<le> x" by simp
    have "2 ^ nat (bitlen m - 1) < 1 / x" using m(2) b(2) by linarith
    then have "x < 1 / 2 ^ nat (bitlen m - 1)"
      using assms by (simp add: field_simps)
    moreover have "power_int (2::rat) (ilog2 x + 1) = 1 / 2 ^ nat (bitlen m - 1)"
    proof -
      have "ilog2 x + 1 = - (bitlen m - 1)" by (simp add: k)
      then show ?thesis using b(1) two_powi_neg [of "bitlen m - 1"] by simp
    qed
    ultimately have hi: "x < power_int 2 (ilog2 x + 1)" by simp
    from lo hi show ?thesis ..
  qed
  then show "power_int 2 (ilog2 x) \<le> x" and "x < power_int 2 (ilog2 x + 1)" by simp_all
qed


lemma ilog2_less:
  assumes "0 < x" "x < power_int 2 k"
  shows "ilog2 x < k"
proof (rule ccontr)
  assume "\<not> ilog2 x < k"
  then have "power_int (2::rat) k \<le> power_int 2 (ilog2 x)"
    by (intro power_int_increasing) simp_all
  with ilog2_bounds(1) [OF assms(1)] assms(2) show False by linarith
qed

lemma ilog2_ge:
  assumes "power_int 2 k \<le> x"
  shows "k \<le> ilog2 x"
proof (rule ccontr)
  assume "\<not> k \<le> ilog2 x"
  then have "power_int (2::rat) (ilog2 x + 1) \<le> power_int 2 k"
    by (intro power_int_increasing) simp_all
  moreover have "0 < x"
    using assms zero_less_power_int [of "2::rat" k] by linarith
  ultimately show False
    using ilog2_bounds(2) [of x] assms by linarith
qed

lemma ilog2_mono:
  assumes "0 < x" "x \<le> y"
  shows "ilog2 x \<le> ilog2 y"
  using ilog2_ge [of "ilog2 x" y] ilog2_bounds(1) [OF assms(1)] assms(2) by linarith

lemma ulp_exp_mono:
  assumes "0 < x" "x \<le> y"
  shows "ulp_exp x \<le> ulp_exp y"
  using ilog2_mono [OF assms] assms by (simp add: ulp_exp_def)

lemma ulp_exp_less:
  assumes "x \<noteq> 0" "\<bar>x\<bar> < power_int 2 k" "- 1022 < k"
  shows "ulp_exp x < k - 52"
  using ilog2_less [of "\<bar>x\<bar>" k] assms by (simp add: ulp_exp_def)

lemma round_double_error:
  "\<bar>round_double x - x\<bar> \<le> power_int 2 (ulp_exp x) / 2"
proof (cases "x = 0")
  case True
  then show ?thesis by (simp add: round_double_def)
next
  case False
  define q :: rat where "q = power_int 2 (ulp_exp x)"
  have q: "0 < q" by (simp add: q_def)
  have "\<bar>of_int (round_half_even (x / q)) - x / q\<bar> * q \<le> 1 / 2 * q"
    using round_half_even_error [of "x / q"] q by (intro mult_right_mono) simp_all
  moreover have "\<bar>of_int (round_half_even (x / q)) * q - x\<bar>
      = \<bar>(of_int (round_half_even (x / q)) - x / q) * q\<bar>"
    using q by (simp add: left_diff_distrib)
  moreover have "\<dots> = \<bar>of_int (round_half_even (x / q)) - x / q\<bar> * q"
    using q by (simp add: abs_mult)
  ultimately show ?thesis
    using False by (simp add: round_double_def q_def)
qed

lemma round_half_even_nonneg: "0 \<le> x \<Longrightarrow> 0 \<le> round_half_even x"
  using round_half_even_mono [of 0 x] round_half_even_of_int [of 0] by simp

lemma round_double_nonneg:
  assumes "0 \<le> x" shows "0 \<le> round_double x"
proof -
  have "0 \<le> x / power_int 2 (ulp_exp x)" using assms by simp
  then have "0 \<le> round_half_even (x / power_int 2 (ulp_exp x))"
    by (rule round_half_even_nonneg)
  then show ?thesis by (simp add: round_double_def)
qed

lemma round_double_mono:
  assumes "0 \<le> x" "x \<le> y"
  shows "round_double x \<le> round_double y"
proof (cases "x = 0")
  case True
  then show ?thesis using round_double_nonneg [of y] assms by (simp add: round_double_def)
next
  case False
  then have x: "0 < x" and y: "0 < y" using assms by simp_all
  define ex ey where "ex = ulp_exp x" and "ey = ulp_exp y"
  have le: "ex \<le> ey" unfolding ex_def ey_def using ulp_exp_mono [OF x assms(2)] .
  have rx: "round_double x = of_int (round_half_even (x / power_int 2 ex)) * power_int 2 ex"
    and ry: "round_double y = of_int (round_half_even (y / power_int 2 ey)) * power_int 2 ey"
    using x y by (simp_all add: round_double_def ex_def ey_def)
  show ?thesis
  proof (cases "ex = ey")
    case True
    have "x / power_int 2 ey \<le> y / power_int 2 ey"
      using assms(2) by (simp add: divide_right_mono)
    then have "round_half_even (x / power_int 2 ey) \<le> round_half_even (y / power_int 2 ey)"
      by (rule round_half_even_mono)
    then show ?thesis unfolding rx ry True
      by (intro mult_right_mono) simp_all
  next
    case False
    with le have lt: "ex < ey" by simp
    have ax: "\<bar>x\<bar> = x" and ay: "\<bar>y\<bar> = y" using x y by simp_all
    have ey_eq: "ey = ilog2 y - 52" and "ilog2 x + 1 \<le> ex + 53"
      using lt unfolding ex_def ey_def ulp_exp_def ax ay
      by (auto simp: max_def split: if_splits)
    then have "x < power_int 2 (ex + 53)"
      using ilog2_bounds(2) [OF x] power_int_increasing [of "ilog2 x + 1" "ex + 53" "2::rat"]
      by simp
    then have "x / power_int 2 ex \<le> of_int (2 ^ 53)"
      by (simp add: power_int_add field_simps)
    then have "round_half_even (x / power_int 2 ex) \<le> 2 ^ 53"
      using round_half_even_mono round_half_even_of_int by metis
    then have "(of_int (round_half_even (x / power_int 2 ex))::rat) \<le> of_int (2 ^ 53)"
      by (simp only: of_int_le_iff)
    then have "round_double x \<le> of_int (2 ^ 53) * power_int 2 ex"
      unfolding rx by (intro mult_right_mono) simp_all
    also have "\<dots> = power_int 2 (ex + 53)"
      by (simp add: power_int_add)
    also have "\<dots> \<le> power_int 2 (ey + 52)"
      using lt by (intro power_int_increasing) simp_all
    finally have up: "round_double x \<le> power_int 2 (ey + 52)" .
    have "power_int 2 (ey + 52) \<le> y"
      using ilog2_bounds(1) [OF y] by (simp add: ey_eq)
    then have "of_int (2 ^ 52) \<le> y / power_int 2 ey"
      by (simp add: power_int_add field_simps)
    then have "2 ^ 52 \<le> round_half_even (y / power_int 2 ey)"
      using round_half_even_mono round_half_even_of_int by metis
    then have "(of_int (2 ^ 52)::rat) \<le> of_int (round_half_even (y / power_int 2 ey))"
      by (simp only: of_int_le_iff)
    then have "of_int (2 ^ 52) * power_int 2 ey \<le> round_double y"
      unfolding ry by (intro mult_right_mono) simp_all
    moreover have "of_int (2 ^ 52) * power_int 2 ey = (power_int 2 (ey + 52) :: rat)"
      by (simp add: power_int_add)
    ultimately show ?thesis using up by linarith
  qed
qed

lemma round_double_close:
  assumes "\<bar>x\<bar> < power_int 2 k" "- 1022 < k"
  shows "\<bar>round_double x - x\<bar> \<le> power_int 2 (k - 54)"
proof (cases "x = 0")
  case True
  then show ?thesis by (simp add: round_double_def)
next
  case False
  have "ulp_exp x \<le> k - 53"
    using ulp_exp_less [OF False assms] by simp
  then have "power_int (2::rat) (ulp_exp x) \<le> power_int 2 (k - 53)"
    by (intro power_int_increasing) simp_all
  moreover have "power_int (2::rat) (k - 53) = 2 * power_int 2 (k - 54)"
    using power_int_add [of "2::rat" "k - 54" 1] by simp
  ultimately show ?thesis
    using round_double_error [of x] by linarith
qed

lemma round_double_fixed:
  "round_double 1 = 1"
  "round_double 100 = 100"
  "round_double 10000 = 10000"
  "round_double 10000000000 = 10000000000"
  by code_simp+

lemma round_double_between:
  assumes "0 \<le> x" "x \<le> r" "round_double r = r"
  shows "0 \<le> round_double x" "round_double x \<le> r"
  using round_double_nonneg [OF assms(1)] round_double_mono [OF assms(1,2)] assms(3)
  by simp_all

lemma float_add_ge:
  assumes "0 \<le> x" "x \<le> 100" "0 \<le> c" "1 \<le> c" "c \<le> 20"
  shows "x \<le> float_add x c"
proof -
  have "\<bar>x + c\<bar> < power_int 2 7" using assms by simp
  then have "\<bar>round_double (x + c) - (x + c)\<bar> \<le> power_int 2 (7 - 54)"
    by (rule round_double_close) simp
  moreover have "power_int (2::rat) (7 - 54) \<le> 1" by simp
  ultimately have "\<bar>round_double (x + c) - (x + c)\<bar> \<le> 1" by linarith
  then show ?thesis unfolding float_add_def using assms by linarith
qed

lemma float_of_int_100: "float_of_int 100 = 100"
  by (simp add: float_of_int_def round_double_fixed)

lemma float_of_int_range:
  assumes "0 \<le> n" "n \<le> 10000"
  shows "0 \<le> float_of_int n" "float_of_int n \<le> 10000"
  unfolding float_of_int_def
  using round_double_between [of "of_int n" 10000] assms round_double_fixed by simp_all

lemma percent_range:
  assumes "0 \<le> r" "r \<le> 100"
  shows "0 \<le> float_truediv r (float_of_int 100)" "float_truediv r (float_of_int 100) \<le> 1"
  unfolding float_truediv_def float_of_int_100
  using round_double_between [of "r / 100" 1] assms round_double_fixed by simp_all

lemma smart_rate_range:
  assumes "valid_CalcInput body"
  shows "0 \<le> smart_conn_rate body" "smart_conn_rate body \<le> 100"
    "0 \<le> smart_close_rate body" "smart_close_rate body \<le> 100"
proof -
  have "0 \<le> float_add (connection_rate body) 20" "0 \<le> float_add (close_rate body) 5"
    unfolding float_add_def using assms
    by (auto simp: valid_CalcInput_def intro!: round_double_nonneg)
  then show "0 \<le> smart_conn_rate body" "smart_conn_rate body \<le> 100"
    "0 \<le> smart_close_rate body" "smart_close_rate body \<le> 100"
    by (simp_all add: smart_conn_rate_def smart_close_rate_def min_py_def)
qed

lemma float_mul_range:
  assumes "0 \<le> a" "a \<le> A" "0 \<le> b" "b \<le> B" "round_double (A * B) = A * B"
  shows "0 \<le> float_mul a b" "float_mul a b \<le> A * B"
proof -
  have "0 \<le> a * b" "a * b \<le> A * B"
    using assms by (simp_all add: mult_mono)
  then show "0 \<le> float_mul a b" "float_mul a b \<le> A * B"
    unfolding float_mul_def using round_double_between assms(5) by blast+
qed

lemma revenue_chain:
  assumes n: "0 \<le> n" "n \<le> 10000" and r: "0 \<le> r" "r \<le> 100" and s: "0 \<le> s" "s \<le> 100"
    and v: "0 < v" "v \<le> 1000000"
  defines "conn \<equiv> float_mul (float_of_int n) (float_truediv r (float_of_int 100))"
  defines "clsd \<equiv> float_mul conn (float_truediv s (float_of_int 100))"
  shows "0 \<le> conn" "conn \<le> 10000" "0 \<le> clsd" "clsd \<le> 10000"
    "0 \<le> float_mul clsd v" "float_mul clsd v \<le> 10000000000"
proof -
  have fix1: "round_double (10000 * 1) = 10000 * 1"
    and fix2: "round_double (10000 * 1000000) = 10000 * 1000000"
    by (simp_all add: round_double_fixed)
  show c: "0 \<le> conn" "conn \<le> 10000"
    unfolding conn_def
    using float_mul_range [OF float_of_int_range [OF n] percent_range [OF r] fix1] by simp_all
  show d: "0 \<le> clsd" "clsd \<le> 10000"
    unfolding clsd_def
    using float_mul_range [OF c percent_range [OF s] fix1] by simp_all
  have "0 \<le> v" using v by simp
  from float_mul_range [OF d this v(2) fix2]
  show "0 \<le> float_mul clsd v" "float_mul clsd v \<le> 10000000000" by simp_all
qed

lemma revenue_range:
  assumes "valid_CalcInput body"
  shows "0 \<le> curr_conn body \<and> curr_conn body \<le> 10000"
    "0 \<le> curr_close body \<and> curr_close body \<le> 10000"
    "0 \<le> curr_rev body \<and> curr_rev body \<le> 10000000000"
    "0 \<le> smart_conn body \<and> smart_conn body \<le> 10000"
    "0 \<le> smart_close body \<and> smart_close body \<le> 10000"
    "0 \<le> smart_rev body \<and> smart_rev body \<le> 10000000000"
proof -
  have v: "0 \<le> monthly_inquiries body" "monthly_inquiries body \<le> 10000"
    "0 \<le> connection_rate body" "connection_rate body \<le> 100"
    "0 \<le> close_rate body" "close_rate body \<le> 100"
    "0 < lifetime_value body" "lifetime_value body \<le> 1000000"
    using assms by (simp_all add: valid_CalcInput_def)
  note c = revenue_chain [OF v]
  note s = revenue_chain [OF v(1,2) smart_rate_range [OF assms] v(7,8)]
  show "0 \<le> curr_conn body \<and> curr_conn body \<le> 10000"
    "0 \<le> curr_close body \<and> curr_close body \<le> 10000"
    "0 \<le> curr_rev body \<and> curr_rev body \<le> 10000000000"
    using c by (simp_all add: curr_conn_def curr_close_def curr_rev_def)
  show "0 \<le> smart_conn body \<and> smart_conn body \<le> 10000"
    "0 \<le> smart_close body \<and> smart_close body \<le> 10000"
    "0 \<le> smart_rev body \<and> smart_rev body \<le> 10000000000"
    using s by (simp_all add: smart_conn_def smart_close_def smart_rev_def)
qed


lemma round_double_close_34:
  assumes "\<bar>x\<bar> \<le> 10000000001"
  shows "\<bar>round_double x - x\<bar> \<le> 1 / 1048576"
proof -
  have "\<bar>x\<bar> < power_int 2 34" using assms by simp
  then have "\<bar>round_double x - x\<bar> \<le> power_int 2 (34 - 54)"
    by (rule round_double_close) simp
  moreover have "power_int (2::rat) (34 - 54) = 1 / 1048576" by simp
  ultimately show ?thesis by simp
qed

lemma decimal_round_error:
  "\<bar>of_int (decimal_round x 2) - 100 * x\<bar> \<le> 1 / 2"
  using round_half_even_error [of "x * 10 ^ 2"]
  by (simp add: decimal_round_def mult.commute)

lemma round_py_error:
  assumes "\<bar>x\<bar> \<le> 10000000000 + 1 / 1048576"
  shows "\<bar>round_py x 2 - of_int (decimal_round x 2) / 100\<bar> \<le> 1 / 1048576"
proof -
  have "\<bar>of_int (decimal_round x 2) - 100 * x\<bar> \<le> 1 / 2"
    by (rule decimal_round_error)
  then have "\<bar>(of_int (decimal_round x 2) :: rat) / 100\<bar> \<le> 10000000001"
    using assms by linarith
  then show ?thesis
    using round_double_close_34 [of "of_int (decimal_round x 2) / 100"]
    by (simp add: round_py_def)
qed


section \<open>Validation\<close>

lemma and_then_Inr_iff: "and_then r f = Inr y \<longleftrightarrow> (\<exists>x. r = Inr x \<and> f x = Inr y)"
  by (cases r) (simp_all add: and_then_def)

lemma required_Inr_iff: "required v = Inr x \<longleftrightarrow> v = Some x"
  by (cases v) (simp_all add: required_def)

lemma conint_Inr_iff: "conint lo hi v = Inr x \<longleftrightarrow> x = v \<and> lo \<le> v \<and> v \<le> hi"
  by (auto simp: conint_def)

lemma confloat_Ge_Inr_iff: "confloat (Ge lo) hi v = Inr x \<longleftrightarrow> x = v \<and> lo \<le> v \<and> v \<le> hi"
  by (auto simp: confloat_def)

lemma confloat_Gt_Inr_iff: "confloat (Gt lo) hi v = Inr x \<longleftrightarrow> x = v \<and> lo < v \<and> v \<le> hi"
  by (auto simp: confloat_def)

lemma CalcInput_validate_Inr_iff:
  "CalcInput_validate mi cr cl lv = Inr body \<longleftrightarrow>
     mi = Some (monthly_inquiries body) \<and> cr = Some (connection_rate body) \<and>
     cl = Some (close_rate body) \<and> lv = Some (lifetime_value body) \<and> valid_CalcInput body"
proof -
  have "CalcInput_validate mi cr cl lv = Inr body \<longleftrightarrow>
    (\<exists>a b c d. and_then (required mi) (conint 0 10000) = Inr a \<and>
       and_then (required cr) (confloat (Ge 0) 100) = Inr b \<and>
       and_then (required cl) (confloat (Ge 0) 100) = Inr c \<and>
       and_then (required lv) (confloat (Gt 0) 1000000) = Inr d \<and>
       body = \<lparr>monthly_inquiries = a, connection_rate = b, close_rate = c, lifetime_value = d\<rparr>)"
    by (auto simp: CalcInput_validate_def Let_def split: sum.splits)
  also have "\<dots> \<longleftrightarrow> mi = Some (monthly_inquiries body) \<and> cr = Some (connection_rate body) \<and>
     cl = Some (close_rate body) \<and> lv = Some (lifetime_value body) \<and> valid_CalcInput body"
    by (cases body)
      (auto simp: and_then_Inr_iff required_Inr_iff conint_Inr_iff confloat_Ge_Inr_iff
        confloat_Gt_Inr_iff valid_CalcInput_def)
  finally show ?thesis .
qed

lemma CalcInput_validate_rejects:
  "isl (CalcInput_validate (Some (- 1)) cr cl lv)"
  "isl (CalcInput_validate (Some 10001) cr cl lv)"
  "isl (CalcInput_validate mi cr cl (Some 0))"
  "isl (CalcInput_validate mi (Some 101) cl lv)"
  by (simp_all add: CalcInput_validate_def Let_def required_def and_then_def conint_def
      confloat_def split: sum.splits)

text \<open>
  Claim C3. Validation of the calculator body accepts exactly when all four fields are
  present and in bounds: monthly inquiries an integer from 0 to 10000, connection rate and
  close rate from 0 to 100, lifetime value above 0 and at most 1000000. The result is either
  the whole model or a list of errors. In particular monthly inquiries -1 or 10001,
  lifetime value 0 and connection rate 101 are each refused, whatever the other fields are.
\<close>

theorem CalcInput_validate_bounds:
  "(CalcInput_validate mi cr cl lv = Inr body \<longleftrightarrow>
     mi = Some (monthly_inquiries body) \<and> cr = Some (connection_rate body) \<and>
     cl = Some (close_rate body) \<and> lv = Some (lifetime_value body) \<and>
     0 \<le> monthly_inquiries body \<and> monthly_inquiries body \<le> 10000 \<and>
     0 \<le> connection_rate body \<and> connection_rate body \<le> 100 \<and>
     0 \<le> close_rate body \<and> close_rate body \<le> 100 \<and>
     0 < lifetime_value body \<and> lifetime_value body \<le> 1000000)
   \<and> isl (CalcInput_validate (Some (- 1)) cr cl lv)
   \<and> isl (CalcInput_validate (Some 10001) cr cl lv)
   \<and> isl (CalcInput_validate mi cr cl (Some 0))
   \<and> isl (CalcInput_validate mi (Some 101) cl lv)"
  using CalcInput_validate_Inr_iff [of mi cr cl lv body] CalcInput_validate_rejects
  by (simp add: valid_CalcInput_def)

lemma optional_email_Inr_iff:
  "optional_email E em = Inr x \<longleftrightarrow>
     (case em of None \<Rightarrow> x = None | Some s \<Rightarrow> E s \<noteq> None \<and> x = E s)"
  by (auto simp: optional_email_def split: option.splits)

lemma Lead_validate_Inr_iff:
  "Lead_validate E nm ph em src nt ind = Inr lead \<longleftrightarrow>
     nm = Some (Lead.name lead) \<and> ph = Some (Lead.phone lead) \<and> src = Some (source lead) \<and>
     (case em of None \<Rightarrow> email lead = None | Some s \<Rightarrow> E s \<noteq> None \<and> email lead = E s) \<and>
     notes lead = nt \<and> industry lead = ind"
proof -
  have "Lead_validate E nm ph em src nt ind = Inr lead \<longleftrightarrow>
    (\<exists>a b c d. required nm = Inr a \<and> required ph = Inr b \<and> optional_email E em = Inr c \<and>
       required src = Inr d \<and>
       lead = \<lparr>Lead.name = a, Lead.phone = b, email = c, source = d, notes = nt,
         industry = ind\<rparr>)"
    by (auto simp: Lead_validate_def Let_def split: sum.splits)
  also have "\<dots> \<longleftrightarrow> nm = Some (Lead.name lead) \<and> ph = Some (Lead.phone lead) \<and>
     src = Some (source lead) \<and>
     (case em of None \<Rightarrow> email lead = None | Some s \<Rightarrow> E s \<noteq> None \<and> email lead = E s) \<and>
     notes lead = nt \<and> industry lead = ind"
    by (cases lead) (auto simp: required_Inr_iff optional_email_Inr_iff split: option.splits)
  finally show ?thesis .
qed

lemma split_at_not_Nil: "split_at c s \<noteq> []"
  by (induction s) (auto split: list.splits)

lemma split_at_absent: "c \<notin> set s \<Longrightarrow> split_at c s = [s]"
  by (induction s) auto

lemma split_at_single: "split_at c s = [a] \<Longrightarrow> s = a \<and> c \<notin> set a"
proof (induction s arbitrary: a)
  case Nil
  then show ?case by simp
next
  case (Cons x xs)
  show ?case
  proof (cases "x = c")
    case True
    with Cons.prems show ?thesis by (simp add: split_at_not_Nil)
  next
    case False
    with Cons.prems obtain y where y: "split_at c xs = [y]" "a = x # y"
      by (auto simp: split_at_not_Nil split: list.splits)
    with Cons.IH [of y] False show ?thesis by simp
  qed
qed

lemma split_at_pair:
  "split_at c s = [a, b] \<Longrightarrow> s = a @ c # b \<and> c \<notin> set a \<and> c \<notin> set b"
proof (induction s arbitrary: a)
  case Nil
  then show ?case by simp
next
  case (Cons x xs)
  show ?case
  proof (cases "x = c")
    case True
    with Cons.prems have "a = []" "split_at c xs = [b]" by simp_all
    with split_at_single [of c xs b] True show ?thesis by simp
  next
    case False
    with Cons.prems obtain y where y: "split_at c xs = [y, b]" "a = x # y"
      by (auto simp: split_at_not_Nil split: list.splits)
    with Cons.IH [of y] False show ?thesis by simp
  qed
qed

lemma valid_email_shape:
  assumes "valid_email e"
  shows "\<exists>local_part domain. e = local_part @ ''@'' @ domain \<and> local_part \<noteq> [] \<and>
    CHR ''@'' \<notin> set local_part \<and> CHR ''@'' \<notin> set domain \<and> CHR ''.'' \<in> set domain"
proof -
  from assms obtain l d where s: "split_at CHR ''@'' e = [l, d]"
    and l: "valid_local_part l" and d: "valid_domain d"
    by (auto simp: valid_email_def split: list.splits)
  have "l \<noteq> []"
  proof
    assume "l = []"
    with l show False by (simp add: valid_local_part_def)
  qed
  moreover have "CHR ''.'' \<in> set d"
  proof (rule ccontr)
    assume "CHR ''.'' \<notin> set d"
    then have "split_at CHR ''.'' d = [d]" by (rule split_at_absent)
    with d show False by (simp add: valid_domain_def)
  qed
  moreover have "e = l @ ''@'' @ d" "CHR ''@'' \<notin> set l" "CHR ''@'' \<notin> set d"
    using split_at_pair [OF s] by simp_all
  ultimately show ?thesis by blast
qed

lemma valid_email_examples:
  "valid_email ''ann@example.com''"
  "\<not> valid_email ''not-an-email''"
  "\<not> valid_email ''a@@.''"
  "\<not> valid_email '' @.''"
  "\<not> valid_email ''a b@c d.''"
  by code_simp+

text \<open>
  Claim C4, as amended. A lead is accepted exactly when name, phone and source are present
  strings (the source puts no length constraint on them, so the empty string passes) and the
  email, when present and not null, is a syntactically valid address; the accepted lead
  carries the given fields. A valid address consists of a non-empty local part, one
  \<^verbatim>\<open>@\<close> and a domain that contains a dot. A lead whose email is \<^verbatim>\<open>not-an-email\<close> is refused,
  and a lead without email is accepted.
\<close>

theorem Lead_validate_accepts:
  "(Lead_validate EmailStr_spec nm ph em src nt ind = Inr lead \<longleftrightarrow>
     nm = Some (Lead.name lead) \<and> ph = Some (Lead.phone lead) \<and> src = Some (source lead) \<and>
     (case em of None \<Rightarrow> email lead = None
      | Some e \<Rightarrow> valid_email e \<and> email lead = Some e) \<and>
     notes lead = nt \<and> industry lead = ind)
   \<and> (valid_email e \<longrightarrow>
        (\<exists>local_part domain. e = local_part @ ''@'' @ domain \<and> local_part \<noteq> [] \<and>
           CHR ''@'' \<notin> set local_part \<and> CHR ''@'' \<notin> set domain \<and> CHR ''.'' \<in> set domain))
   \<and> isl (Lead_validate EmailStr_spec nm ph (Some ''not-an-email'') src nt ind)
   \<and> Lead_validate EmailStr_spec (Some n) (Some p) None (Some s) nt ind =
       Inr \<lparr>Lead.name = n, Lead.phone = p, email = None, source = s, notes = nt, industry = ind\<rparr>"
proof -
  have "isl (Lead_validate EmailStr_spec nm ph (Some ''not-an-email'') src nt ind)"
    by (simp add: Lead_validate_def Let_def optional_email_def EmailStr_spec_def
        valid_email_examples split: sum.splits)
  moreover have "Lead_validate EmailStr_spec nm ph em src nt ind = Inr lead \<longleftrightarrow>
     nm = Some (Lead.name lead) \<and> ph = Some (Lead.phone lead) \<and> src = Some (source lead) \<and>
     (case em of None \<Rightarrow> email lead = None
      | Some e \<Rightarrow> valid_email e \<and> email lead = Some e) \<and>
     notes lead = nt \<and> industry lead = ind"
    unfolding Lead_validate_Inr_iff
    by (auto simp: EmailStr_spec_def split: option.splits)
  ultimately show ?thesis
    using valid_email_shape [of e] by (simp add: Lead_validate_Inr_iff)
qed

theorem Lead_validate_accepts_witness:
  "valid_email ''ann@example.com''
   \<and> Lead_validate EmailStr_spec (Some ''Ann'') (Some ''555-0100'') (Some ''ann@example.com'')
       (Some ''demo'') None None =
       Inr \<lparr>Lead.name = ''Ann'', Lead.phone = ''555-0100'', email = Some ''ann@example.com'',
            source = ''demo'', notes = None, industry = None\<rparr>
   \<and> (\<exists>local_part domain. ''ann@example.com'' = local_part @ ''@'' @ domain \<and>
        local_part \<noteq> [] \<and> CHR ''@'' \<notin> set local_part \<and> CHR ''@'' \<notin> set domain \<and>
        CHR ''.'' \<in> set domain)"
  using Lead_validate_accepts [of "Some ''Ann''" "Some ''555-0100''" "Some ''ann@example.com''"
      "Some ''demo''" None None
      "\<lparr>Lead.name = ''Ann'', Lead.phone = ''555-0100'', email = Some ''ann@example.com'',
            source = ''demo'', notes = None, industry = None\<rparr>" "''ann@example.com''"
      "''n''" "''p''" "''s''"]
    valid_email_examples(1)
  by simp

text \<open>
  Claim C4 as stated asks for non-empty name, phone and source; a lead in which all three
  are the empty string is accepted.
\<close>

theorem Lead_validate_empty_strings:
  "Lead_validate EmailStr_spec (Some []) (Some []) None (Some []) None None =
     Inr \<lparr>Lead.name = [], Lead.phone = [], email = None, source = [], notes = None,
          industry = None\<rparr>"
  by (simp add: Lead_validate_Inr_iff)

section \<open>The calculator on concrete bodies\<close>

lemma scenario_floats:
  "float_of_int 100 = 100"
  "float_truediv 50 100 = 1 / 2"
  "float_mul 100 (1 / 2) = 50"
  "float_truediv 20 100 = 3602879701896397 / 18014398509481984"
  "float_mul 50 (3602879701896397 / 18014398509481984) = 10"
  "float_mul 10 1000 = 10000"
  "float_add 50 20 = 70"
  "float_add 20 5 = 25"
  "float_truediv 70 100 = 3152519739159347 / 4503599627370496"
  "float_mul 100 (3152519739159347 / 4503599627370496) = 70"
  "float_truediv 25 100 = 1 / 4"
  "float_mul 70 (1 / 4) = 35 / 2"
  "float_mul (35 / 2) 1000 = 17500"
  "float_sub 17500 10000 = 7500"
  by code_simp+

lemma scenario_rounded:
  "round_py 50 2 = 50"
  "round_py 10 2 = 10"
  "round_py 10000 2 = 10000"
  "round_py 70 2 = 70"
  "round_py (35 / 2) 2 = 35 / 2"
  "round_py 17500 2 = 17500"
  "round_py 7500 2 = 7500"
  by code_simp+

text \<open>
  Claim C1. For the body with monthly inquiries 100, connection rate 50, close rate 20 and
  lifetime value 1000, which validation accepts, the calculator returns current connected
  50.0, current closed 10.0, current revenue 10000.0, smart connected 70.0, smart closed
  17.5, smart revenue 17500.0 and lift revenue 7500.0, with the assumptions
  smart connection rate 70.0 and smart close rate 25.0.
\<close>

theorem calculate_revenue_scenario:
  "CalcInput_validate (Some 100) (Some 50) (Some 20) (Some 1000) =
     Inr \<lparr>monthly_inquiries = 100, connection_rate = 50, close_rate = 20, lifetime_value = 1000\<rparr>
   \<and> calculate_revenue
       \<lparr>monthly_inquiries = 100, connection_rate = 50, close_rate = 20, lifetime_value = 1000\<rparr> =
     \<lparr>current_connected = 50, current_closed = 10, current_revenue = 10000,
      smart_connected = 70, smart_closed = 35 / 2, smart_revenue = 17500,
      lift_revenue = 7500,
      assumptions = [(''smart_connection_rate'', 70), (''smart_close_rate'', 25)]\<rparr>"
proof
  show "CalcInput_validate (Some 100) (Some 50) (Some 20) (Some 1000) =
     Inr \<lparr>monthly_inquiries = 100, connection_rate = 50, close_rate = 20, lifetime_value = 1000\<rparr>"
    by (simp add: CalcInput_validate_def required_def and_then_def conint_def confloat_def)
next
  let ?body = "\<lparr>monthly_inquiries = 100, connection_rate = 50, close_rate = 20,
    lifetime_value = 1000\<rparr>"
  have rates: "smart_conn_rate ?body = 70" "smart_close_rate ?body = 25"
    by (simp_all add: smart_conn_rate_def smart_close_rate_def min_py_def scenario_floats)
  have curr: "curr_conn ?body = 50" "curr_close ?body = 10" "curr_rev ?body = 10000"
    by (simp_all add: curr_conn_def curr_close_def curr_rev_def scenario_floats)
  have smart: "smart_conn ?body = 70" "smart_close ?body = 35 / 2" "smart_rev ?body = 17500"
    by (simp_all add: smart_conn_def smart_close_def smart_rev_def rates scenario_floats)
  show "calculate_revenue ?body =
     \<lparr>current_connected = 50, current_closed = 10, current_revenue = 10000,
      smart_connected = 70, smart_closed = 35 / 2, smart_revenue = 17500,
      lift_revenue = 7500,
      assumptions = [(''smart_connection_rate'', 70), (''smart_close_rate'', 25)]\<rparr>"
    by (simp add: calculate_revenue_def rates curr smart scenario_floats scenario_rounded)
qed

lemma capped_floats:
  "float_truediv 100 100 = 1"
  "float_mul 100 1 = 100"
  "float_mul 100 1000 = 100000"
  "float_add 100 20 = 120"
  "float_add 100 5 = 105"
  "float_truediv 95 100 = 4278419646001971 / 4503599627370496"
  "float_mul 100 (4278419646001971 / 4503599627370496) = 95"
  "float_truediv 85 100 = 7656119366529843 / 9007199254740992"
  "float_mul 95 (7656119366529843 / 9007199254740992) = 323 / 4"
  "float_mul (323 / 4) 1000 = 80750"
  "float_sub 80750 100000 = - 19250"
  by code_simp+

lemma capped_rounded:
  "round_py 100 2 = 100"
  "round_py 100000 2 = 100000"
  "round_py 95 2 = 95"
  "round_py (323 / 4) 2 = 323 / 4"
  "round_py 80750 2 = 80750"
  "round_py (- 19250) 2 = - 19250"
  by code_simp+

text \<open>
  Claim C9. There is a valid body whose lift revenue is strictly negative: with monthly
  inquiries 100, both rates 100 and lifetime value 1000 the smart rates are capped at 95 and
  85, the smart revenue 80750.0 is below the current revenue 100000.0, and the lift is
  -19250.0.
\<close>

theorem lift_revenue_negative:
  "valid_CalcInput
     \<lparr>monthly_inquiries = 100, connection_rate = 100, close_rate = 100, lifetime_value = 1000\<rparr>
   \<and> calculate_revenue
       \<lparr>monthly_inquiries = 100, connection_rate = 100, close_rate = 100, lifetime_value = 1000\<rparr> =
     \<lparr>current_connected = 100, current_closed = 100, current_revenue = 100000,
      smart_connected = 95, smart_closed = 323 / 4, smart_revenue = 80750,
      lift_revenue = - 19250,
      assumptions = [(''smart_connection_rate'', 95), (''smart_close_rate'', 85)]\<rparr>
   \<and> lift_revenue (calculate_revenue
       \<lparr>monthly_inquiries = 100, connection_rate = 100, close_rate = 100, lifetime_value = 1000\<rparr>) < 0"
proof -
  let ?body = "\<lparr>monthly_inquiries = 100, connection_rate = 100, close_rate = 100,
    lifetime_value = 1000\<rparr>"
  have rates: "smart_conn_rate ?body = 95" "smart_close_rate ?body = 85"
    by (simp_all add: smart_conn_rate_def smart_close_rate_def min_py_def capped_floats)
  have curr: "curr_conn ?body = 100" "curr_close ?body = 100" "curr_rev ?body = 100000"
    by (simp_all add: curr_conn_def curr_close_def curr_rev_def capped_floats scenario_floats(1))
  have smart: "smart_conn ?body = 95" "smart_close ?body = 323 / 4" "smart_rev ?body = 80750"
    by (simp_all add: smart_conn_def smart_close_def smart_rev_def rates capped_floats
        scenario_floats(1))
  have result: "calculate_revenue ?body =
     \<lparr>current_connected = 100, current_closed = 100, current_revenue = 100000,
      smart_connected = 95, smart_closed = 323 / 4, smart_revenue = 80750,
      lift_revenue = - 19250,
      assumptions = [(''smart_connection_rate'', 95), (''smart_close_rate'', 85)]\<rparr>"
    by (simp add: calculate_revenue_def rates curr smart capped_floats capped_rounded)
  have "valid_CalcInput ?body" by (simp add: valid_CalcInput_def)
  then show ?thesis by (simp add: result)
qed

section \<open>The calculator on every valid body\<close>

text \<open>
  Claim C2, as amended. For every valid body the two rates reported under assumptions are
  the smart rates, the smart connection rate is at most 95 and the smart close rate at most
  85; the smart connection rate is at least the given connection rate whenever that one is
  at most 95, and the smart close rate is at least the given close rate whenever that one
  is at most 85.
\<close>

theorem smart_rates_capped:
  assumes "valid_CalcInput body"
  shows "assumptions (calculate_revenue body) =
      [(''smart_connection_rate'', smart_conn_rate body),
       (''smart_close_rate'', smart_close_rate body)]
    \<and> smart_conn_rate body \<le> 95 \<and> smart_close_rate body \<le> 85
    \<and> (connection_rate body \<le> 95 \<longrightarrow> connection_rate body \<le> smart_conn_rate body)
    \<and> (close_rate body \<le> 85 \<longrightarrow> close_rate body \<le> smart_close_rate body)"
proof -
  have v: "0 \<le> connection_rate body" "connection_rate body \<le> 100"
    "0 \<le> close_rate body" "close_rate body \<le> 100"
    using assms by (simp_all add: valid_CalcInput_def)
  have "connection_rate body \<le> float_add (connection_rate body) 20"
    "close_rate body \<le> float_add (close_rate body) 5"
    using v by (simp_all add: float_add_ge)
  then show ?thesis
    by (simp add: calculate_revenue_def smart_conn_rate_def smart_close_rate_def min_py_def)
qed

theorem smart_rates_capped_witness:
  "valid_CalcInput
     \<lparr>monthly_inquiries = 100, connection_rate = 50, close_rate = 20, lifetime_value = 1000\<rparr>
   \<and> (50::rat) \<le> 95 \<and> (20::rat) \<le> 85
   \<and> smart_conn_rate
       \<lparr>monthly_inquiries = 100, connection_rate = 50, close_rate = 20, lifetime_value = 1000\<rparr>
      \<le> 95
   \<and> smart_close_rate
       \<lparr>monthly_inquiries = 100, connection_rate = 50, close_rate = 20, lifetime_value = 1000\<rparr>
      \<le> 85
   \<and> 50 \<le> smart_conn_rate
       \<lparr>monthly_inquiries = 100, connection_rate = 50, close_rate = 20, lifetime_value = 1000\<rparr>
   \<and> 20 \<le> smart_close_rate
       \<lparr>monthly_inquiries = 100, connection_rate = 50, close_rate = 20, lifetime_value = 1000\<rparr>"
proof -
  let ?body = "\<lparr>monthly_inquiries = 100, connection_rate = 50, close_rate = 20,
    lifetime_value = 1000\<rparr>"
  have v: "valid_CalcInput ?body" by (simp add: valid_CalcInput_def)
  from smart_rates_capped [OF v] v show ?thesis by simp
qed

text \<open>
  Claim C2 as stated also promises each smart rate to be at least the given rate for every
  valid body; with both rates at 100 the smart rates are 95 and 85, below the given ones.
\<close>

theorem smart_rates_below_input:
  "valid_CalcInput
     \<lparr>monthly_inquiries = 100, connection_rate = 100, close_rate = 100, lifetime_value = 1000\<rparr>
   \<and> smart_conn_rate
       \<lparr>monthly_inquiries = 100, connection_rate = 100, close_rate = 100, lifetime_value = 1000\<rparr>
      = 95
   \<and> smart_close_rate
       \<lparr>monthly_inquiries = 100, connection_rate = 100, close_rate = 100, lifetime_value = 1000\<rparr>
      = 85
   \<and> \<not> connection_rate
       \<lparr>monthly_inquiries = 100, connection_rate = 100, close_rate = 100, lifetime_value = 1000\<rparr>
      \<le> smart_conn_rate
       \<lparr>monthly_inquiries = 100, connection_rate = 100, close_rate = 100, lifetime_value = 1000\<rparr>
   \<and> \<not> close_rate
       \<lparr>monthly_inquiries = 100, connection_rate = 100, close_rate = 100, lifetime_value = 1000\<rparr>
      \<le> smart_close_rate
       \<lparr>monthly_inquiries = 100, connection_rate = 100, close_rate = 100, lifetime_value = 1000\<rparr>"
  by (simp add: valid_CalcInput_def smart_conn_rate_def smart_close_rate_def min_py_def
      capped_floats)

lemma round_half_even_near:
  assumes "\<bar>y - of_int k\<bar> < 1 / 2"
  shows "round_half_even y = k"
proof -
  have lo: "of_int k - 1 / 2 < y" and hi: "y < of_int k + 1 / 2"
    using assms by linarith+
  have "of_int (k - 1) \<le> y" using lo by simp
  then have f1: "k - 1 \<le> \<lfloor>y\<rfloor>" by (simp only: le_floor_iff)
  have "y < of_int (k + 1)" using hi by simp
  then have f2: "\<lfloor>y\<rfloor> < k + 1" by (simp only: floor_less_iff)
  from f1 f2 have "\<lfloor>y\<rfloor> = k \<or> \<lfloor>y\<rfloor> = k - 1" by linarith
  then show ?thesis
  proof
    assume "\<lfloor>y\<rfloor> = k"
    then show ?thesis using hi by (simp add: round_half_even_def Let_def)
  next
    assume f: "\<lfloor>y\<rfloor> = k - 1"
    have "1 / 2 < y - of_int (k - 1)" using lo by simp
    then show ?thesis using f by (simp add: round_half_even_def Let_def)
  qed
qed

lemma decimal_round_round_py:
  assumes "\<bar>x\<bar> \<le> 10000000000 + 1 / 1048576"
  shows "decimal_round (round_py x 2) 2 = decimal_round x 2"
proof -
  have "\<bar>round_py x 2 - of_int (decimal_round x 2) / 100\<bar> \<le> 1 / 1048576"
    using assms by (rule round_py_error)
  then have "\<bar>round_py x 2 * 100 - of_int (decimal_round x 2)\<bar> < 1 / 2"
    by linarith
  then have "round_half_even (round_py x 2 * 100) = decimal_round x 2"
    by (rule round_half_even_near)
  then show ?thesis by (simp add: decimal_round_def)
qed

text \<open>
  Claim C8. For every valid body each of the three revenue fields is a 2-decimal value: the
  float nearest to a whole number of hundredths, which reading the field to two decimals
  gives back. The hundredths of the lift field are within one half of (that is, a 2-decimal
  rounding of) the unrounded difference of smart and current revenue, and those of the
  other two fields of the unrounded smart and current revenue. Counted in hundredths, the
  lift differs from the difference of the separately rounded smart and current revenue by
  at most one; the returned floats satisfy the same bound up to the error of converting
  the three decimals to floats.
\<close>

theorem lift_revenue_rounding:
  assumes "valid_CalcInput body"
  shows "\<exists>kl ks kc :: int.
      lift_revenue (calculate_revenue body) = round_double (of_int kl / 100)
    \<and> smart_revenue (calculate_revenue body) = round_double (of_int ks / 100)
    \<and> current_revenue (calculate_revenue body) = round_double (of_int kc / 100)
    \<and> \<bar>of_int kl - 100 * float_sub (smart_rev body) (curr_rev body)\<bar> \<le> 1 / 2
    \<and> \<bar>of_int ks - 100 * smart_rev body\<bar> \<le> 1 / 2
    \<and> \<bar>of_int kc - 100 * curr_rev body\<bar> \<le> 1 / 2
    \<and> \<bar>lift_revenue (calculate_revenue body) - of_int kl / 100\<bar> \<le> 1 / 1048576
    \<and> \<bar>smart_revenue (calculate_revenue body) - of_int ks / 100\<bar> \<le> 1 / 1048576
    \<and> \<bar>current_revenue (calculate_revenue body) - of_int kc / 100\<bar> \<le> 1 / 1048576
    \<and> round_half_even (100 * lift_revenue (calculate_revenue body)) = kl
    \<and> round_half_even (100 * smart_revenue (calculate_revenue body)) = ks
    \<and> round_half_even (100 * current_revenue (calculate_revenue body)) = kc
    \<and> \<bar>kl - (ks - kc)\<bar> \<le> 1
    \<and> \<bar>lift_revenue (calculate_revenue body)
         - (smart_revenue (calculate_revenue body) - current_revenue (calculate_revenue body))\<bar>
        \<le> 1 / 100 + 1 / 262144"
proof -
  define a b f where "a = smart_rev body" and "b = curr_rev body" and "f = float_sub a b"
  define ka kb kf where "ka = decimal_round a 2" and "kb = decimal_round b 2"
    and "kf = decimal_round f 2"
  have a: "0 \<le> a" "a \<le> 10000000000" and b: "0 \<le> b" "b \<le> 10000000000"
    using revenue_range [OF assms] by (simp_all add: a_def b_def)
  have "\<bar>a - b\<bar> \<le> 10000000001" using a b by linarith
  then have f: "\<bar>f - (a - b)\<bar> \<le> 1 / 1048576"
    unfolding f_def float_sub_def by (rule round_double_close_34)
  have ea: "\<bar>of_int ka - 100 * a\<bar> \<le> 1 / 2" and eb: "\<bar>of_int kb - 100 * b\<bar> \<le> 1 / 2"
    and ef: "\<bar>of_int kf - 100 * f\<bar> \<le> 1 / 2"
    unfolding ka_def kb_def kf_def by (rule decimal_round_error)+
  have "\<bar>(of_int kf :: rat) - (of_int ka - of_int kb)\<bar> < 2"
    using ea eb ef f by linarith
  then have "(of_int \<bar>kf - (ka - kb)\<bar> :: rat) < of_int 2" by simp
  then have "\<bar>kf - (ka - kb)\<bar> < 2" by (simp only: of_int_less_iff)
  then have k: "\<bar>kf - (ka - kb)\<bar> \<le> 1" by simp
  then have "(of_int \<bar>kf - (ka - kb)\<bar> :: rat) \<le> of_int 1" by (simp only: of_int_le_iff)
  then have kr: "\<bar>(of_int kf :: rat) - (of_int ka - of_int kb)\<bar> \<le> 1" by simp
  have bf: "\<bar>f\<bar> \<le> 10000000000 + 1 / 1048576" using f a b by linarith
  have ba: "\<bar>a\<bar> \<le> 10000000000 + 1 / 1048576" using a by linarith
  have bb: "\<bar>b\<bar> \<le> 10000000000 + 1 / 1048576" using b by linarith
  have rf: "\<bar>round_py f 2 - of_int kf / 100\<bar> \<le> 1 / 1048576"
    and ra: "\<bar>round_py a 2 - of_int ka / 100\<bar> \<le> 1 / 1048576"
    and rb: "\<bar>round_py b 2 - of_int kb / 100\<bar> \<le> 1 / 1048576"
    unfolding kf_def ka_def kb_def using bf ba bb by (simp_all only: round_py_error)
  have df: "round_half_even (100 * round_py f 2) = kf"
    and da: "round_half_even (100 * round_py a 2) = ka"
    and db: "round_half_even (100 * round_py b 2) = kb"
    using decimal_round_round_py [OF bf] decimal_round_round_py [OF ba]
      decimal_round_round_py [OF bb]
    by (simp_all add: decimal_round_def kf_def ka_def kb_def mult.commute)
  have pf: "round_py f 2 = round_double (of_int kf / 100)"
    and pa: "round_py a 2 = round_double (of_int ka / 100)"
    and pb: "round_py b 2 = round_double (of_int kb / 100)"
    by (simp_all add: round_py_def kf_def ka_def kb_def)
  have gap: "\<bar>round_py f 2 - (round_py a 2 - round_py b 2)\<bar> \<le> 1 / 100 + 1 / 262144"
    using rf ra rb kr by linarith
  have fields: "lift_revenue (calculate_revenue body) = round_py f 2"
    "smart_revenue (calculate_revenue body) = round_py a 2"
    "current_revenue (calculate_revenue body) = round_py b 2"
    by (simp_all add: calculate_revenue_def a_def b_def f_def)
  have ef': "\<bar>of_int kf - 100 * float_sub (smart_rev body) (curr_rev body)\<bar> \<le> 1 / 2"
    and ea': "\<bar>of_int ka - 100 * smart_rev body\<bar> \<le> 1 / 2"
    and eb': "\<bar>of_int kb - 100 * curr_rev body\<bar> \<le> 1 / 2"
    using ef ea eb by (simp_all add: f_def a_def b_def)
  show ?thesis
    unfolding fields
    apply (rule exI [of _ kf], rule exI [of _ ka], rule exI [of _ kb])
    using pf pa pb ef' ea' eb' rf ra rb df da db k gap by blast
qed


lemma gap_floats:
  "float_of_int 1 = 1"
  "float_truediv 1 100 = 5764607523034235 / 576460752303423488"
  "float_mul 1 (5764607523034235 / 576460752303423488) = 5764607523034235 / 576460752303423488"
  "float_mul (5764607523034235 / 576460752303423488) (5764607523034235 / 576460752303423488)
     = 7378697629483821 / 73786976294838206464"
  "float_mul (7378697629483821 / 73786976294838206464) 10
     = 1152921504606847 / 1152921504606846976"
  "float_add 1 20 = 21"
  "float_add 1 5 = 6"
  "float_truediv 21 100 = 7566047373982433 / 36028797018963968"
  "float_mul 1 (7566047373982433 / 36028797018963968) = 7566047373982433 / 36028797018963968"
  "float_truediv 6 100 = 1080863910568919 / 18014398509481984"
  "float_mul (7566047373982433 / 36028797018963968) (1080863910568919 / 18014398509481984)
     = 7263405479023135 / 576460752303423488"
  "float_mul (7263405479023135 / 576460752303423488) 10
     = 4539628424389459 / 36028797018963968"
  "float_sub (4539628424389459 / 36028797018963968) (1152921504606847 / 1152921504606846976)
     = 4503599627370495 / 36028797018963968"
  by code_simp+

lemma gap_decimals:
  "decimal_round (4503599627370495 / 36028797018963968) 2 = 12"
  "decimal_round (4539628424389459 / 36028797018963968) 2 = 13"
  "decimal_round (1152921504606847 / 1152921504606846976) 2 = 0"
  by code_simp+

text \<open>
  A body for which the bound is attained: the unrounded revenues are about 0.126 and 0.001,
  their difference about 0.125; the fields are 0.13, 0.0 and 0.12.
\<close>

theorem lift_revenue_rounding_witness:
  "valid_CalcInput
     \<lparr>monthly_inquiries = 1, connection_rate = 1, close_rate = 1, lifetime_value = 10\<rparr>
   \<and> lift_revenue (calculate_revenue
       \<lparr>monthly_inquiries = 1, connection_rate = 1, close_rate = 1, lifetime_value = 10\<rparr>)
     = round_double (12 / 100)
   \<and> smart_revenue (calculate_revenue
       \<lparr>monthly_inquiries = 1, connection_rate = 1, close_rate = 1, lifetime_value = 10\<rparr>)
     = round_double (13 / 100)
   \<and> current_revenue (calculate_revenue
       \<lparr>monthly_inquiries = 1, connection_rate = 1, close_rate = 1, lifetime_value = 10\<rparr>)
     = round_double (0 / 100)
   \<and> \<bar>(12::int) - (13 - 0)\<bar> = 1
   \<and> \<bar>lift_revenue (calculate_revenue
         \<lparr>monthly_inquiries = 1, connection_rate = 1, close_rate = 1, lifetime_value = 10\<rparr>)
       - (smart_revenue (calculate_revenue
           \<lparr>monthly_inquiries = 1, connection_rate = 1, close_rate = 1, lifetime_value = 10\<rparr>)
          - current_revenue (calculate_revenue
           \<lparr>monthly_inquiries = 1, connection_rate = 1, close_rate = 1, lifetime_value = 10\<rparr>))\<bar>
      \<le> 1 / 100 + 1 / 262144"
proof -
  let ?body = "\<lparr>monthly_inquiries = 1, connection_rate = 1, close_rate = 1,
    lifetime_value = 10\<rparr>"
  have v: "valid_CalcInput ?body" by (simp add: valid_CalcInput_def)
  have rates: "smart_conn_rate ?body = 21" "smart_close_rate ?body = 6"
    by (simp_all add: smart_conn_rate_def smart_close_rate_def min_py_def gap_floats)
  have curr: "curr_rev ?body = 1152921504606847 / 1152921504606846976"
    by (simp add: curr_rev_def curr_close_def curr_conn_def gap_floats float_of_int_100)
  have smart: "smart_rev ?body = 4539628424389459 / 36028797018963968"
    by (simp add: smart_rev_def smart_close_def smart_conn_def rates gap_floats float_of_int_100)
  have fields: "lift_revenue (calculate_revenue ?body) = round_double (12 / 100)"
    "smart_revenue (calculate_revenue ?body) = round_double (13 / 100)"
    "current_revenue (calculate_revenue ?body) = round_double (0 / 100)"
    by (simp_all add: calculate_revenue_def round_py_def curr smart gap_floats gap_decimals)
  from lift_revenue_rounding [OF v] have
    "\<bar>lift_revenue (calculate_revenue ?body)
       - (smart_revenue (calculate_revenue ?body) - current_revenue (calculate_revenue ?body))\<bar>
      \<le> 1 / 100 + 1 / 262144"
    by blast
  with v fields show ?thesis by simp
qed

section \<open>Handlers\<close>

text \<open>
  Claim C5. For every optional sample intent the demo transcript has exactly four turns with
  the roles visitor, ai, visitor, ai; the text of the first turn is the sample intent when
  that is present and not empty and the literal greeting otherwise; the texts of the other
  three turns are the fixed literals. Whenever the demo handler answers with a transcript,
  it is this one.
\<close>

theorem transcript_turns:
  "map role (transcript req) = [''visitor'', ''ai'', ''visitor'', ''ai'']
   \<and> map text (transcript req) =
      [(case sample_intent req of
          None \<Rightarrow> ''Hi! I'm looking for a quote.''
        | Some s \<Rightarrow> if s = [] then ''Hi! I'm looking for a quote.'' else s),
       ''You're in the right place! I can help with that. May I have your address and a good time for an estimate?'',
       ''Tomorrow afternoon works. 123 Main St.'',
       ''Great. I've penciled you in for 2:30 PM. You'll get a confirmation by text. Anything else I can answer now?'']
   \<and> length (transcript req) = 4
   \<and> (case fst (create_demo create_document req w) of
         Demo_ok demo_id turns \<Rightarrow> turns = transcript req
       | _ \<Rightarrow> True)"
  by (simp add: transcript_def or_py_def create_demo_def split: prod.splits sum.splits)

theorem transcript_turns_witness:
  "fst (create_demo memory_gateway
      \<lparr>DemoRequest.name = ''Ann'', DemoRequest.phone = ''555-0100'',
       sample_intent = Some ''roofing quote''\<rparr> [])
     = Demo_ok ''id-''
        [\<lparr>role = ''visitor'', text = ''roofing quote''\<rparr>,
         \<lparr>role = ''ai'', text = ''You're in the right place! I can help with that. May I have your address and a good time for an estimate?''\<rparr>,
         \<lparr>role = ''visitor'', text = ''Tomorrow afternoon works. 123 Main St.''\<rparr>,
         \<lparr>role = ''ai'', text = ''Great. I've penciled you in for 2:30 PM. You'll get a confirmation by text. Anything else I can answer now?''\<rparr>]
   \<and> map text (transcript
      \<lparr>DemoRequest.name = ''Ann'', DemoRequest.phone = ''555-0100'', sample_intent = Some ''''\<rparr>)
     = [''Hi! I'm looking for a quote.'',
        ''You're in the right place! I can help with that. May I have your address and a good time for an estimate?'',
        ''Tomorrow afternoon works. 123 Main St.'',
        ''Great. I've penciled you in for 2:30 PM. You'll get a confirmation by text. Anything else I can answer now?'']"
  using transcript_turns [of "\<lparr>DemoRequest.name = ''Ann'', DemoRequest.phone = ''555-0100'',
      sample_intent = Some ''roofing quote''\<rparr>" memory_gateway "[]"]
    transcript_turns [of "\<lparr>DemoRequest.name = ''Ann'', DemoRequest.phone = ''555-0100'',
      sample_intent = Some ''''\<rparr>" memory_gateway "[]"]
  by (simp add: create_demo_def memory_gateway_def transcript_def or_py_def)

lemma post_api_lead_cases:
  "Lead_validate E nm ph em src nt ind = Inr lead \<Longrightarrow>
     post_api_lead E g nm ph em src nt ind w = create_lead g lead w"
  "Lead_validate E nm ph em src nt ind = Inl errors \<Longrightarrow>
     post_api_lead E g nm ph em src nt ind w = (RequestValidationError errors, w)"
  by (simp_all add: post_api_lead_def)

lemma post_api_demo_cases:
  "DemoRequest_validate nm ph si = Inr req \<Longrightarrow>
     post_api_demo g nm ph si w = create_demo g req w"
  "DemoRequest_validate nm ph si = Inl errors \<Longrightarrow>
     post_api_demo g nm ph si w = (RequestValidationError errors, w)"
  by (simp_all add: post_api_demo_def)

lemma create_lead_logged:
  "create_lead (logged g) lead (w, calls) =
     (fst (create_lead g lead w),
      (snd (create_lead g lead w), calls @ [(''lead'', Lead_document lead)]))"
  by (simp add: create_lead_def logged_def split: prod.splits sum.splits)

lemma create_demo_logged:
  "create_demo (logged g) req (w, calls) =
     (fst (create_demo g req w),
      (snd (create_demo g req w), calls @ [(''demorequest'', DemoRequest_document req)]))"
  by (simp add: create_demo_def logged_def split: prod.splits sum.splits)

text \<open>
  Claim C6. For every gateway, lead and demo request, each handler calls the gateway exactly
  once, with its own collection name and the document: the log of a logged gateway holds
  that one call and the world is left as that one call leaves it. If the call raises, the
  handler answers with an HTTPException of status 500 that carries only the message, so no
  identifier and, for the demo handler, no transcript; status 500 differs from the 422 of a
  validation failure.
\<close>

theorem handlers_insert_once:
  "snd (snd (create_lead (logged g) lead (w, []))) = [(''lead'', Lead_document lead)]
   \<and> snd (snd (create_demo (logged g) req (w, []))) =
       [(''demorequest'', DemoRequest_document req)]
   \<and> snd (create_lead g lead w) = snd (g ''lead'' (Lead_document lead) w)
   \<and> snd (create_demo g req w) = snd (g ''demorequest'' (DemoRequest_document req) w)
   \<and> (\<forall>e. fst (g ''lead'' (Lead_document lead) w) = Inl e \<longrightarrow>
         fst (create_lead g lead w) = HTTPException 500 (str e))
   \<and> (\<forall>e. fst (g ''demorequest'' (DemoRequest_document req) w) = Inl e \<longrightarrow>
         fst (create_demo g req w) = HTTPException 500 (str e))
   \<and> status_code (HTTPException 500 detail) = 500
   \<and> status_code (RequestValidationError errors) = 422"
  by (simp add: create_lead_logged create_demo_logged)
    (simp add: create_lead_def create_demo_def status_code_def split: prod.splits sum.splits)

theorem handlers_insert_once_witness:
  "fst (failing_gateway ''connection refused'' ''lead''
         (Lead_document \<lparr>Lead.name = ''Ann'', Lead.phone = ''555-0100'', email = None,
            source = ''demo'', notes = None, industry = None\<rparr>) ())
     = Inl (Exception ''connection refused'')
   \<and> fst (failing_gateway ''connection refused'' ''demorequest''
         (DemoRequest_document \<lparr>DemoRequest.name = ''Ann'', DemoRequest.phone = ''555-0100'',
            sample_intent = None\<rparr>) ())
     = Inl (Exception ''connection refused'')
   \<and> fst (create_lead (failing_gateway ''connection refused'')
        \<lparr>Lead.name = ''Ann'', Lead.phone = ''555-0100'', email = None,
            source = ''demo'', notes = None, industry = None\<rparr> ())
     = HTTPException 500 ''connection refused''
   \<and> fst (create_demo (failing_gateway ''connection refused'')
        \<lparr>DemoRequest.name = ''Ann'', DemoRequest.phone = ''555-0100'', sample_intent = None\<rparr>
        ())
     = HTTPException 500 ''connection refused''
   \<and> snd (snd (create_lead (logged (failing_gateway ''connection refused''))
        \<lparr>Lead.name = ''Ann'', Lead.phone = ''555-0100'', email = None,
            source = ''demo'', notes = None, industry = None\<rparr> ((), [])))
     = [(''lead'', Lead_document \<lparr>Lead.name = ''Ann'', Lead.phone = ''555-0100'',
            email = None, source = ''demo'', notes = None, industry = None\<rparr>)]"
proof -
  let ?g = "failing_gateway ''connection refused'' :: unit gateway"
  let ?lead = "\<lparr>Lead.name = ''Ann'', Lead.phone = ''555-0100'', email = None,
            source = ''demo'', notes = None, industry = None\<rparr>"
  let ?req = "\<lparr>DemoRequest.name = ''Ann'', DemoRequest.phone = ''555-0100'',
            sample_intent = None\<rparr>"
  have h1: "fst (?g ''lead'' (Lead_document ?lead) ()) = Inl (Exception ''connection refused'')"
    and h2: "fst (?g ''demorequest'' (DemoRequest_document ?req) ())
      = Inl (Exception ''connection refused'')"
    by (simp_all add: failing_gateway_def)
  from handlers_insert_once [of ?g ?lead "()" ?req "[]" "[]"] h1 h2 show ?thesis
    by (simp add: str_def)
qed

text \<open>
  Claim C7 says that the message of a failed insert is truncated or sanitised before it is
  returned. Both handlers pass \<^verbatim>\<open>str(e)\<close> on as the detail unchanged: a message of more than
  50 characters, naming host and port of the store, comes back in full.
\<close>

theorem persistence_error_detail_raw:
  "create_lead (failing_gateway
       ''localhost:27017: [Errno 111] Connection refused (configured timeouts: socketTimeoutMS: 20000.0ms, connectTimeoutMS: 20000.0ms)'')
     lead w
   = (HTTPException 500
       ''localhost:27017: [Errno 111] Connection refused (configured timeouts: socketTimeoutMS: 20000.0ms, connectTimeoutMS: 20000.0ms)'',
      w)
   \<and> create_demo (failing_gateway
       ''localhost:27017: [Errno 111] Connection refused (configured timeouts: socketTimeoutMS: 20000.0ms, connectTimeoutMS: 20000.0ms)'')
     req w
   = (HTTPException 500
       ''localhost:27017: [Errno 111] Connection refused (configured timeouts: socketTimeoutMS: 20000.0ms, connectTimeoutMS: 20000.0ms)'',
      w)
   \<and> 50 < length
       ''localhost:27017: [Errno 111] Connection refused (configured timeouts: socketTimeoutMS: 20000.0ms, connectTimeoutMS: 20000.0ms)''"
  by (simp add: create_lead_def create_demo_def failing_gateway_def str_def)

text \<open>
  Claim C10. The transcript depends on the sample intent only: two demo requests with the
  same sample intent, whatever their names and phones, the gateways and the worlds, get the
  same transcript from successful calls of the demo handler.
\<close>

theorem transcript_noninterference:
  assumes "sample_intent req1 = sample_intent req2"
    and "create_demo g1 req1 w1 = (Demo_ok id1 turns1, w1')"
    and "create_demo g2 req2 w2 = (Demo_ok id2 turns2, w2')"
  shows "turns1 = turns2"
proof -
  have "turns1 = transcript req1" "turns2 = transcript req2"
    using assms(2,3) by (auto simp: create_demo_def split: prod.splits sum.splits)
  then show ?thesis using assms(1) by (simp add: transcript_def)
qed

theorem transcript_noninterference_witness:
  "sample_intent \<lparr>DemoRequest.name = ''Ann'', DemoRequest.phone = ''555-0100'',
       sample_intent = Some ''roofing quote''\<rparr>
     = sample_intent \<lparr>DemoRequest.name = ''Bob'', DemoRequest.phone = ''555-0199'',
       sample_intent = Some ''roofing quote''\<rparr>
   \<and> create_demo memory_gateway \<lparr>DemoRequest.name = ''Ann'', DemoRequest.phone = ''555-0100'',
       sample_intent = Some ''roofing quote''\<rparr> []
     = (Demo_ok ''id-'' (transcript \<lparr>DemoRequest.name = ''Ann'', DemoRequest.phone = ''555-0100'',
          sample_intent = Some ''roofing quote''\<rparr>),
        [(''demorequest'', DemoRequest_document \<lparr>DemoRequest.name = ''Ann'',
          DemoRequest.phone = ''555-0100'', sample_intent = Some ''roofing quote''\<rparr>)])
   \<and> create_demo memory_gateway \<lparr>DemoRequest.name = ''Bob'', DemoRequest.phone = ''555-0199'',
       sample_intent = Some ''roofing quote''\<rparr> []
     = (Demo_ok ''id-'' (transcript \<lparr>DemoRequest.name = ''Bob'', DemoRequest.phone = ''555-0199'',
          sample_intent = Some ''roofing quote''\<rparr>),
        [(''demorequest'', DemoRequest_document \<lparr>DemoRequest.name = ''Bob'',
          DemoRequest.phone = ''555-0199'', sample_intent = Some ''roofing quote''\<rparr>)])
   \<and> transcript \<lparr>DemoRequest.name = ''Ann'', DemoRequest.phone = ''555-0100'',
       sample_intent = Some ''roofing quote''\<rparr>
     = transcript \<lparr>DemoRequest.name = ''Bob'', DemoRequest.phone = ''555-0199'',
       sample_intent = Some ''roofing quote''\<rparr>"
proof -
  let ?a = "\<lparr>DemoRequest.name = ''Ann'', DemoRequest.phone = ''555-0100'',
       sample_intent = Some ''roofing quote''\<rparr>"
  let ?b = "\<lparr>DemoRequest.name = ''Bob'', DemoRequest.phone = ''555-0199'',
       sample_intent = Some ''roofing quote''\<rparr>"
  have h: "sample_intent ?a = sample_intent ?b" by simp
  have a: "create_demo memory_gateway ?a [] =
      (Demo_ok ''id-'' (transcript ?a), [(''demorequest'', DemoRequest_document ?a)])"
    by (simp add: create_demo_def memory_gateway_def)
  have b: "create_demo memory_gateway ?b [] =
      (Demo_ok ''id-'' (transcript ?b), [(''demorequest'', DemoRequest_document ?b)])"
    by (simp add: create_demo_def memory_gateway_def)
  from transcript_noninterference [OF h a b] h a b show ?thesis by simp
qed

end
